theory Spec2Isabelle
  imports Complex_Main
begin

section \<open>The 4K camera recorder (\<open>PC3 - 4K/pycam.py\<close>)\<close>

text \<open>
  The recorder opens four cameras, starts for each of them a capture thread and a write
  thread, waits for a stop condition and then prints the achieved frame rate of every
  camera.  The embedding follows \<open>pycam.py\<close> method by method.

  \<^item> An instant (\<open>datetime.datetime.now()\<close>) is a number of microseconds, the resolution
    of Python's \<open>datetime\<close>; a \<open>timedelta\<close> is a difference of two instants.
  \<^item> Python floats are modelled by exact rationals; \<open>/\<close> is Python 3's true division.
  \<^item> The objects of OpenCV and NI-DAQmx are the environment: a capture device is the
    list of results its \<open>read()\<close> calls are going to return, a video writer is the list of
    arguments \<open>write\<close> was called with, a digital line is the sequence of its samples.
  \<^item> A thread body \<open>while True: ...\<close> is modelled by its iteration; the clock value an
    iteration reads is an argument of the iteration.
\<close>

subsection \<open>Time\<close>

type_synonym datetime = int
type_synonym timedelta = int

definition total_seconds :: "timedelta \<Rightarrow> rat" where
  "total_seconds d = of_int d / 1000000"

definition time_sleep :: "int \<Rightarrow> datetime \<Rightarrow> datetime" where
  "time_sleep secs now = now + secs * 1000000"

subsection \<open>Errors\<close>

datatype error = TypeError | AttributeError | ZeroDivisionError

subsection \<open>The FPS counter (class \<open>FPS\<close>)\<close>

text \<open>The fields \<open>_start\<close>, \<open>_end\<close> and \<open>_numFrames\<close>; \<open>None\<close> is Python's \<open>None\<close>.\<close>

record FPS =
  u_start :: "datetime option"
  u_end :: "datetime option"
  u_numFrames :: int

definition FPS_init :: FPS where
  "FPS_init = \<lparr>u_start = None, u_end = None, u_numFrames = 0\<rparr>"

definition FPS_start :: "datetime \<Rightarrow> FPS \<Rightarrow> FPS" where
  "FPS_start now c = c\<lparr>u_start := Some now\<rparr>"

definition FPS_stop :: "datetime \<Rightarrow> FPS \<Rightarrow> FPS" where
  "FPS_stop now c = c\<lparr>u_end := Some now\<rparr>"

definition FPS_update :: "FPS \<Rightarrow> FPS" where
  "FPS_update c = c\<lparr>u_numFrames := u_numFrames c + 1\<rparr>"

text \<open>\<open>self._end - self._start\<close> raises \<open>TypeError\<close> when either instant is still \<open>None\<close>.\<close>

definition FPS_elapsed :: "FPS \<Rightarrow> error + rat" where
  "FPS_elapsed c =
     (case u_end c of
        None \<Rightarrow> Inl TypeError
      | Some e \<Rightarrow>
          (case u_start c of
             None \<Rightarrow> Inl TypeError
           | Some s \<Rightarrow> Inr (total_seconds (e - s))))"

definition FPS_fps :: "FPS \<Rightarrow> error + rat" where
  "FPS_fps c =
     (case FPS_elapsed c of
        Inl err \<Rightarrow> Inl err
      | Inr el \<Rightarrow>
          if el = 0 then Inr 0
          else Inr (of_int (u_numFrames c) / el))"

subsection \<open>The OpenCV objects\<close>

text \<open>
  A frame is an image or Python's \<open>None\<close>, which \<open>read()\<close> returns with the flag \<open>False\<close>
  when no frame could be grabbed.  A capture device holds the results of its coming
  \<open>read()\<close> calls; when they are used up, every further read fails.  Whether the device
  could be opened is \<open>isOpened\<close>.  A released object records the instant of its release.
\<close>

datatype image = Image nat

record VideoCapture =
  isOpened :: bool
  props :: "(nat \<times> rat) list"
  pending :: "(bool \<times> image option) list"
  cap_released :: "datetime option"

definition VideoCapture_set :: "nat \<Rightarrow> rat \<Rightarrow> VideoCapture \<Rightarrow> VideoCapture" where
  "VideoCapture_set k v cap = cap\<lparr>props := (k, v) # props cap\<rparr>"

definition VideoCapture_read :: "VideoCapture \<Rightarrow> (bool \<times> image option) \<times> VideoCapture" where
  "VideoCapture_read cap =
     (case pending cap of
        [] \<Rightarrow> ((False, None), cap)
      | r # rs \<Rightarrow> (r, cap\<lparr>pending := rs\<rparr>))"

definition VideoCapture_release :: "datetime \<Rightarrow> VideoCapture \<Rightarrow> VideoCapture" where
  "VideoCapture_release now cap = cap\<lparr>cap_released := Some now\<rparr>"

record VideoWriter =
  filename :: string
  wr_fourcc :: string
  wr_fps :: int
  frameSize :: "nat \<times> nat"
  written :: "image option list"
  wr_released :: "datetime option"

definition cv2_VideoWriter :: "string \<Rightarrow> string \<Rightarrow> int \<Rightarrow> nat \<times> nat \<Rightarrow> VideoWriter" where
  "cv2_VideoWriter path cc rate sz =
     \<lparr>filename = path, wr_fourcc = cc, wr_fps = rate, frameSize = sz,
      written = [], wr_released = None\<rparr>"

definition VideoWriter_write :: "image option \<Rightarrow> VideoWriter \<Rightarrow> VideoWriter" where
  "VideoWriter_write f w = w\<lparr>written := written w @ [f]\<rparr>"

definition VideoWriter_release :: "datetime \<Rightarrow> VideoWriter \<Rightarrow> VideoWriter" where
  "VideoWriter_release now w = w\<lparr>wr_released := Some now\<rparr>"

subsection \<open>One camera (class \<open>WebcamVideoStream\<close>)\<close>

text \<open>
  The field \<open>out\<close> is \<open>None\<close> while it holds the placeholder \<open>-1\<close> of the constructor, on
  which \<open>write\<close> and \<open>release\<close> raise \<open>AttributeError\<close>.  The field \<open>frame\<close> is the
  current-frame slot, \<open>current_frame\<close> the number of frames emitted so far and
  \<open>frame_index\<close> the frame interval.
\<close>

record WebcamVideoStream =
  stream :: VideoCapture
  resolution :: "nat \<times> nat"
  fps :: int
  video_name :: string
  fourcc :: string
  out :: "VideoWriter option"
  FPS_counter :: FPS
  frame_index :: rat
  current_frame :: int
  num_frames :: int
  grabbed :: bool
  frame :: "image option"
  stopped :: bool

definition WebcamVideoStream_init :: "VideoCapture \<Rightarrow> WebcamVideoStream" where
  "WebcamVideoStream_init cap =
     (let s = VideoCapture_set 5 30 (VideoCapture_set 4 2160 (VideoCapture_set 3 4096 cap));
          r = VideoCapture_read s
      in \<lparr>stream = snd r, resolution = (4096, 2160), fps = - 1, video_name = [],
          fourcc = [], out = None, FPS_counter = FPS_init, frame_index = - 1,
          current_frame = 0, num_frames = - 1, grabbed = fst (fst r), frame = snd (fst r),
          stopped = False\<rparr>)"

text \<open>\<open>start\<close> starts the counter; the two threads it launches run the iterations below.\<close>

definition WebcamVideoStream_start :: "datetime \<Rightarrow> WebcamVideoStream \<Rightarrow> WebcamVideoStream" where
  "WebcamVideoStream_start now vs = vs\<lparr>FPS_counter := FPS_start now (FPS_counter vs)\<rparr>"

text \<open>What an iteration of a thread body does next: leave the thread, or loop.\<close>

datatype ctl = Return | Loop

definition update_iter :: "WebcamVideoStream \<Rightarrow> ctl \<times> WebcamVideoStream" where
  "update_iter vs =
     (if stopped vs then (Return, vs)
      else
        (let r = VideoCapture_read (stream vs)
         in (Loop, vs\<lparr>stream := snd r, grabbed := fst (fst r), frame := snd (fst r)\<rparr>)))"

definition write_iter :: "datetime \<Rightarrow> WebcamVideoStream \<Rightarrow> error + ctl \<times> WebcamVideoStream" where
  "write_iter now vs =
     (if stopped vs then Inr (Return, vs)
      else
        (case u_start (FPS_counter vs) of
           None \<Rightarrow> Inl TypeError
         | Some st \<Rightarrow>
             (let elaps = now - st
              in if total_seconds elaps > frame_index vs * of_int (current_frame vs) then
                   (case out vs of
                      None \<Rightarrow> Inl AttributeError
                    | Some w \<Rightarrow>
                        Inr (Loop, vs\<lparr>out := Some (VideoWriter_write (frame vs) w),
                                       current_frame := current_frame vs + 1,
                                       FPS_counter := FPS_update (FPS_counter vs)\<rparr>))
                 else Inr (Loop, vs))))"

text \<open>
  The write thread, observed over the clock values its successive iterations read.  The
  loop itself only ends when another thread sets \<open>stopped\<close>.
\<close>

fun WebcamVideoStream_write :: "datetime list \<Rightarrow> WebcamVideoStream \<Rightarrow> error + WebcamVideoStream" where
  "WebcamVideoStream_write [] vs = Inr vs"
| "WebcamVideoStream_write (now # nows) vs =
     (case write_iter now vs of
        Inl err \<Rightarrow> Inl err
      | Inr (Return, vs') \<Rightarrow> Inr vs'
      | Inr (Loop, vs') \<Rightarrow> WebcamVideoStream_write nows vs')"

definition WebcamVideoStream_read :: "WebcamVideoStream \<Rightarrow> image option" where
  "WebcamVideoStream_read vs = frame vs"

text \<open>
  \<open>stop\<close> is entered at the instant \<open>now\<close> and returns the instant at which it is left;
  only \<open>time.sleep\<close> takes time.
\<close>

definition WebcamVideoStream_stop ::
  "datetime \<Rightarrow> WebcamVideoStream \<Rightarrow> error + WebcamVideoStream \<times> datetime" where
  "WebcamVideoStream_stop now vs =
     (let vs1 = vs\<lparr>stopped := True\<rparr>;
          vs2 = vs1\<lparr>FPS_counter := FPS_stop now (FPS_counter vs1)\<rparr>;
          now' = time_sleep 5 now;
          vs3 = vs2\<lparr>stream := VideoCapture_release now' (stream vs2)\<rparr>
      in case out vs3 of
           None \<Rightarrow> Inl AttributeError
         | Some w \<Rightarrow> Inr (vs3\<lparr>out := Some (VideoWriter_release now' w)\<rparr>, now'))"

text \<open>The frames handed to the sink so far.\<close>

definition emitted :: "WebcamVideoStream \<Rightarrow> image option list" where
  "emitted vs = (case out vs of None \<Rightarrow> [] | Some w \<Rightarrow> written w)"

text \<open>The capture thread, observed over a number of iterations.\<close>

fun WebcamVideoStream_update :: "nat \<Rightarrow> WebcamVideoStream \<Rightarrow> WebcamVideoStream" where
  "WebcamVideoStream_update 0 vs = vs"
| "WebcamVideoStream_update (Suc n) vs =
     (case update_iter vs of
        (Return, vs') \<Rightarrow> vs'
      | (Loop, vs') \<Rightarrow> WebcamVideoStream_update n vs')"

subsection \<open>The session (\<open>main\<close>)\<close>

text \<open>
  The command-line arguments that the session uses.  The camera indices are replaced by
  the objects that \<open>cv2.VideoCapture\<close> returns for them.
\<close>

record args =
  arg_seconds :: int
  arg_fps :: int
  arg_codec :: string

text \<open>
  The set-up of one camera.  \<open>1 / vs.fps\<close> raises \<open>ZeroDivisionError\<close> for the rate 0.
\<close>

definition camera_setup :: "args \<Rightarrow> string \<Rightarrow> VideoCapture \<Rightarrow> error + WebcamVideoStream" where
  "camera_setup a path cap =
     (let vs = WebcamVideoStream_init cap;
          vs = vs\<lparr>fps := arg_fps a\<rparr>;
          vs = vs\<lparr>num_frames := arg_seconds a * fps vs\<rparr>;
          vs = vs\<lparr>out := Some (cv2_VideoWriter path (arg_codec a) (fps vs) (resolution vs))\<rparr>
      in if fps vs = 0 then Inl ZeroDivisionError
         else Inr (vs\<lparr>frame_index := 1 / of_int (fps vs)\<rparr>))"

fun setup_cameras :: "args \<Rightarrow> (string \<times> VideoCapture) list \<Rightarrow> error + WebcamVideoStream list" where
  "setup_cameras a [] = Inr []"
| "setup_cameras a ((path, cap) # cams) =
     (case camera_setup a path cap of
        Inl err \<Rightarrow> Inl err
      | Inr vs \<Rightarrow>
          (case setup_cameras a cams of
             Inl err \<Rightarrow> Inl err
           | Inr vss \<Rightarrow> Inr (vs # vss)))"

text \<open>
  The cameras 1 to 4 are set up in this order; \<open>cv2.VideoWriter_fourcc\<close> takes the four
  characters of the codec and raises \<open>TypeError\<close> for another number of them.
\<close>

definition main_setup ::
  "args \<Rightarrow> string \<times> VideoCapture \<Rightarrow> string \<times> VideoCapture \<Rightarrow> string \<times> VideoCapture \<Rightarrow>
     string \<times> VideoCapture \<Rightarrow> error + WebcamVideoStream list" where
  "main_setup a c1 c2 c3 c4 =
     (if length (arg_codec a) \<noteq> 4 then Inl TypeError
      else setup_cameras a [c1, c2, c3, c4])"

text \<open>\<open>vs1.start()\<close> to \<open>vs4.start()\<close>, each at the instant its counter reads.\<close>

definition main_start :: "datetime list \<Rightarrow> WebcamVideoStream list \<Rightarrow> WebcamVideoStream list" where
  "main_start nows vss = map2 WebcamVideoStream_start nows vss"

subsection \<open>Waiting for a pulse\<close>

text \<open>
  The loop that reads the digital line until a sample is true; the line is the sequence of
  the samples that \<open>task.read\<close> returns.  The state of the loop is the flag, the number of
  samples read and whether the task is closed.  \<open>main\<close> has this loop twice, on the line
  \<open>ON\<close> with the flag \<open>PULSE_START\<close> and on the line \<open>OFF\<close> with the flag \<open>PULSE_STOP\<close>.
\<close>

partial_function (option) pulse_loop :: "(nat \<Rightarrow> bool) \<Rightarrow> bool \<Rightarrow> nat \<Rightarrow> bool \<Rightarrow> (nat \<times> bool) option" where
  "pulse_loop line PULSE n is_closed =
     (if PULSE = False then
        (let data = [line n]
         in if data ! 0 = True then pulse_loop line True (Suc n) True
            else pulse_loop line PULSE (Suc n) is_closed)
      else Some (n, is_closed))"

definition wait_PULSE_START :: "(nat \<Rightarrow> bool) \<Rightarrow> (nat \<times> bool) option" where
  "wait_PULSE_START ON = pulse_loop ON False 0 False"

definition wait_PULSE_STOP :: "(nat \<Rightarrow> bool) \<Rightarrow> (nat \<times> bool) option" where
  "wait_PULSE_STOP OFF = pulse_loop OFF False 0 False"

subsection \<open>The report\<close>

text \<open>Python 3's \<open>round\<close> with one argument: the nearest integer, a tie goes to the even one.\<close>

definition round_py :: "rat \<Rightarrow> int" where
  "round_py x =
     (let fl = \<lfloor>x\<rfloor>; d = x - of_int fl
      in if d < 1 / 2 then fl
         else if 1 / 2 < d then fl + 1
         else if even fl then fl else fl + 1)"

datatype message = AverageFPS nat rat | TargetFPS int | Warning nat

definition report :: "nat \<Rightarrow> WebcamVideoStream \<Rightarrow> error + message list" where
  "report i vs =
     (case FPS_fps (FPS_counter vs) of
        Inl err \<Rightarrow> Inl err
      | Inr average_fps \<Rightarrow>
          Inr ([AverageFPS i average_fps, TargetFPS (fps vs)] @
               (if round_py average_fps < fps vs then [Warning i] else [])))"

subsection \<open>Scenarios\<close>

text \<open>
  A camera is recording from the instant \<open>st\<close> when it has a sink, its counter was started
  at \<open>st\<close> and it is not stopped.
\<close>

definition recording :: "datetime \<Rightarrow> WebcamVideoStream \<Rightarrow> bool" where
  "recording st vs \<longleftrightarrow> \<not> stopped vs \<and> u_start (FPS_counter vs) = Some st \<and> out vs \<noteq> None"

text \<open>
  One camera's set-up, start at the instant \<open>st\<close> and the iterations of its write thread
  that read the clock values \<open>nows\<close>.
\<close>

definition record_camera ::
  "args \<Rightarrow> string \<Rightarrow> VideoCapture \<Rightarrow> datetime \<Rightarrow> datetime list \<Rightarrow> error + WebcamVideoStream" where
  "record_camera a path cap st nows =
     (case camera_setup a path cap of
        Inl err \<Rightarrow> Inl err
      | Inr vs \<Rightarrow> WebcamVideoStream_write nows (WebcamVideoStream_start st vs))"

text \<open>
  The elapsed times \<open>es\<close> at which the write thread reads the clock are paced by \<open>d\<close> up to
  \<open>T\<close>: each follows the one before it (the first follows \<open>prev\<close>) by at most \<open>d\<close>, and
  \<open>T\<close> follows the last by at most \<open>d\<close>.
\<close>

fun paced :: "rat \<Rightarrow> rat \<Rightarrow> rat list \<Rightarrow> rat \<Rightarrow> bool" where
  "paced d prev [] T = (T - prev \<le> d)"
| "paced d prev (e # es) T = (e - prev \<le> d \<and> paced d e es T)"

text \<open>A camera that opened and has three frames to deliver, and one that did not open.\<close>

definition brio :: VideoCapture where
  "brio = \<lparr>isOpened = True, props = [],
            pending = [(True, Some (Image 1)), (True, Some (Image 2)), (True, Some (Image 3))],
            cap_released = None\<rparr>"

definition unplugged :: VideoCapture where
  "unplugged = \<lparr>isOpened = False, props = [], pending = [], cap_released = None\<rparr>"

text \<open>A camera whose second read fails.\<close>

definition flaky :: VideoCapture where
  "flaky = \<lparr>isOpened = True, props = [],
             pending = [(True, Some (Image 1)), (False, None), (True, Some (Image 2))],
             cap_released = None\<rparr>"

text \<open>
  The calls that reach one camera after its start, in the order in which they take
  effect: an iteration of the capture thread, an iteration of the write thread at the clock
  value it reads, a \<open>read()\<close> and \<open>stop()\<close> entered at an instant.
\<close>

datatype event = EvUpdate | EvWrite datetime | EvRead | EvStop datetime

fun step :: "event \<Rightarrow> WebcamVideoStream \<Rightarrow> error + WebcamVideoStream" where
  "step EvUpdate vs = Inr (snd (update_iter vs))"
| "step (EvWrite now) vs = map_sum id snd (write_iter now vs)"
| "step EvRead vs = Inr vs"
| "step (EvStop now) vs = map_sum id fst (WebcamVideoStream_stop now vs)"

fun run :: "event list \<Rightarrow> WebcamVideoStream \<Rightarrow> error + WebcamVideoStream" where
  "run [] vs = Inr vs"
| "run (ev # evs) vs = (case step ev vs of Inl err \<Rightarrow> Inl err | Inr vs' \<Rightarrow> run evs vs')"

subsection \<open>The rate computation\<close>

text \<open>
  Claim C5.  When the start and the end instant are recorded, \<open>fps()\<close> returns 0 if the
  elapsed duration between them is 0, and otherwise the number of emitted frames divided
  by that duration in seconds.
\<close>

theorem FPS_fps_rate:
  "u_start c = Some s \<Longrightarrow> u_end c = Some e \<Longrightarrow>
     FPS_elapsed c = Inr (total_seconds (e - s)) \<and>
     (total_seconds (e - s) = 0 \<longrightarrow> FPS_fps c = Inr 0) \<and>
     (total_seconds (e - s) \<noteq> 0 \<longrightarrow>
        FPS_fps c = Inr (of_int (u_numFrames c) / total_seconds (e - s)))"
  by (simp add: FPS_fps_def FPS_elapsed_def)

theorem FPS_fps_rate_witness:
  "FPS_fps \<lparr>u_start = Some 0, u_end = Some 2000000, u_numFrames = 9\<rparr> = Inr (9 / 2) \<and>
   FPS_fps \<lparr>u_start = Some 7, u_end = Some 7, u_numFrames = 3\<rparr> = Inr 0"
  using FPS_fps_rate [of "\<lparr>u_start = Some 0, u_end = Some 2000000, u_numFrames = 9\<rparr>" 0 2000000]
    FPS_fps_rate [of "\<lparr>u_start = Some 7, u_end = Some 7, u_numFrames = 3\<rparr>" 7 7]
  by (simp add: total_seconds_def)

subsection \<open>The trigger wait\<close>

lemma pulse_loop_done: "pulse_loop line True n c = Some (n, c)"
  by (subst pulse_loop.simps) simp

lemma pulse_loop_first:
  "line k \<Longrightarrow> n \<le> k \<Longrightarrow> (\<forall>j. n \<le> j \<and> j < k \<longrightarrow> \<not> line j) \<Longrightarrow>
     pulse_loop line False n c = Some (Suc k, True)"
proof (induction "k - n" arbitrary: n c)
  case 0
  then have "n = k" by simp
  with 0 show ?case
    by (subst pulse_loop.simps) (simp add: pulse_loop_done)
next
  case (Suc d)
  then have "\<not> line n" and "Suc n \<le> k" and "d = k - Suc n" by auto
  moreover have "\<forall>j. Suc n \<le> j \<and> j < k \<longrightarrow> \<not> line j" using Suc.prems by auto
  ultimately have "pulse_loop line False (Suc n) c = Some (Suc k, True)"
    using Suc.hyps(1) Suc.prems(1) by blast
  with \<open>\<not> line n\<close> show ?case
    by (subst pulse_loop.simps) simp
qed

lemma pulse_loop_returns:
  assumes "pulse_loop line PULSE n c = Some r"
  shows "(PULSE \<and> r = (n, c)) \<or> (\<not> PULSE \<and> (\<exists>k\<ge>n. line k))"
proof (rule pulse_loop.raw_induct
         [where P = "\<lambda>l p m b y. (p \<and> y = (m, b)) \<or> (\<not> p \<and> (\<exists>k\<ge>m. l k))", OF _ assms])
  fix f l p m b y
  assume IH: "\<And>l p m b y. f l p m b = Some y \<Longrightarrow> (p \<and> y = (m, b)) \<or> (\<not> p \<and> (\<exists>k\<ge>m. l k))"
    and body: "(if p = False
          then let data = [l m]
               in if data ! 0 = True then f l True (Suc m) True else f l p (Suc m) b
          else Some (m, b)) = Some y"
  show "(p \<and> y = (m, b)) \<or> (\<not> p \<and> (\<exists>k\<ge>m. l k))"
  proof (cases p)
    case True
    with body show ?thesis by simp
  next
    case False
    show ?thesis
    proof (cases "l m")
      case True
      with False show ?thesis by auto
    next
      case lm: False
      with False body have "f l False (Suc m) b = Some y" by simp
      from IH [OF this] obtain k where "Suc m \<le> k" "l k" by auto
      then have "m \<le> k \<and> l k" by simp
      with False show ?thesis by blast
    qed
  qed
qed

lemma pulse_loop_blocks: "\<forall>k. \<not> line k \<Longrightarrow> pulse_loop line False n c = None"
proof (cases "pulse_loop line False n c")
  case None
  then show ?thesis .
next
  case (Some r)
  assume "\<forall>k. \<not> line k"
  with pulse_loop_returns [OF Some] show ?thesis by simp
qed

lemma pulse_wait:
  "((\<forall>k. \<not> line k) \<longrightarrow> pulse_loop line False 0 False = None) \<and>
   (\<forall>k. line k \<and> (\<forall>j<k. \<not> line j) \<longrightarrow> pulse_loop line False 0 False = Some (Suc k, True)) \<and>
   (\<forall>n b. pulse_loop line False 0 False = Some (n, b) \<longrightarrow>
      b \<and> (\<exists>k. n = Suc k \<and> line k \<and> (\<forall>j<k. \<not> line j)))"
proof (intro conjI allI impI)
  assume "\<forall>k. \<not> line k"
  then show "pulse_loop line False 0 False = None" by (rule pulse_loop_blocks)
next
  fix k assume "line k \<and> (\<forall>j<k. \<not> line j)"
  then show "pulse_loop line False 0 False = Some (Suc k, True)"
    by (intro pulse_loop_first) auto
next
  fix n b assume ret: "pulse_loop line False 0 False = Some (n, b)"
  from pulse_loop_returns [OF ret] obtain k0 where "line k0" by auto
  define k where "k = (LEAST k. line k)"
  have "line k" unfolding k_def using \<open>line k0\<close> by (rule LeastI)
  moreover have "\<forall>j<k. \<not> line j" unfolding k_def using not_less_Least by blast
  ultimately have "pulse_loop line False 0 False = Some (Suc k, True)"
    by (intro pulse_loop_first) auto
  with ret have "n = Suc k" "b" by simp_all
  with \<open>line k\<close> \<open>\<forall>j<k. \<not> line j\<close>
  show "b" and "\<exists>k. n = Suc k \<and> line k \<and> (\<forall>j<k. \<not> line j)" by auto
qed

text \<open>
  Claim C6.  The wait for the start pulse and the wait for the stop pulse never return
  while every sample of the line is false; they return right after the first true sample
  (having read the samples up to it and closed the task); and when they return, the last
  sample read was true and all the samples before it were false.
\<close>

theorem trigger_wait:
  "((\<forall>k. \<not> line k) \<longrightarrow> wait_PULSE_START line = None \<and> wait_PULSE_STOP line = None) \<and>
   (line k \<and> (\<forall>j<k. \<not> line j) \<longrightarrow>
      wait_PULSE_START line = Some (Suc k, True) \<and> wait_PULSE_STOP line = Some (Suc k, True)) \<and>
   (wait_PULSE_START line = Some (n, b) \<or> wait_PULSE_STOP line = Some (n, b) \<longrightarrow>
      b \<and> (\<exists>k. n = Suc k \<and> line k \<and> (\<forall>j<k. \<not> line j)))"
  using pulse_wait [of line] unfolding wait_PULSE_START_def wait_PULSE_STOP_def by blast

theorem trigger_wait_witness:
  "wait_PULSE_START (\<lambda>k. 2 \<le> k) = Some (3, True) \<and> wait_PULSE_STOP (\<lambda>k. 2 \<le> k) = Some (3, True) \<and>
   wait_PULSE_START (\<lambda>k. False) = None \<and> wait_PULSE_STOP (\<lambda>k. False) = None"
  using trigger_wait [of "\<lambda>k. 2 \<le> k" 2 0 False] trigger_wait [of "\<lambda>k. False" 0 0 False]
  by (simp add: numeral_3_eq_3 less_Suc_eq)

subsection \<open>The schedule of the write thread\<close>

lemma write_iter_recording:
  assumes "recording st vs"
  shows "\<exists>vs1. write_iter now vs = Inr (Loop, vs1) \<and> recording st vs1 \<and>
           frame_index vs1 = frame_index vs \<and> fps vs1 = fps vs \<and>
           (if total_seconds (now - st) > frame_index vs * of_int (current_frame vs)
            then emitted vs1 = emitted vs @ [frame vs] \<and> current_frame vs1 = current_frame vs + 1
            else emitted vs1 = emitted vs \<and> current_frame vs1 = current_frame vs)"
  using assms
  by (auto simp: recording_def write_iter_def emitted_def VideoWriter_write_def FPS_update_def Let_def)

lemma write_upper:
  assumes "recording st vs" and "frame_index vs = 1 / of_int (fps vs)" and "0 < fps vs"
    and "\<forall>now\<in>set nows. total_seconds (now - st) \<le> T"
    and "current_frame vs \<le> \<lfloor>T * of_int (fps vs)\<rfloor> + 1"
  shows "\<exists>vs'. WebcamVideoStream_write nows vs = Inr vs' \<and> fps vs' = fps vs \<and>
           current_frame vs' \<le> \<lfloor>T * of_int (fps vs)\<rfloor> + 1"
  using assms
proof (induction nows arbitrary: vs)
  case Nil
  then show ?case by simp
next
  case (Cons now nows)
  from write_iter_recording [OF Cons.prems(1), of now] obtain vs1 where
    it: "write_iter now vs = Inr (Loop, vs1)" and rec: "recording st vs1"
    and fi: "frame_index vs1 = frame_index vs" and f: "fps vs1 = fps vs"
    and eff: "if total_seconds (now - st) > frame_index vs * of_int (current_frame vs)
            then emitted vs1 = emitted vs @ [frame vs] \<and> current_frame vs1 = current_frame vs + 1
            else emitted vs1 = emitted vs \<and> current_frame vs1 = current_frame vs"
    by blast
  have le: "total_seconds (now - st) \<le> T" using Cons.prems(4) by simp
  have "current_frame vs1 \<le> \<lfloor>T * of_int (fps vs)\<rfloor> + 1"
  proof (cases "total_seconds (now - st) > frame_index vs * of_int (current_frame vs)")
    case True
    then have "of_int (current_frame vs) / of_int (fps vs) < T"
      using le Cons.prems(2) by simp
    then have "of_int (current_frame vs) < T * of_int (fps vs)"
      using Cons.prems(3) by (simp add: pos_divide_less_eq)
    then have "current_frame vs \<le> \<lfloor>T * of_int (fps vs)\<rfloor>"
      by (simp add: le_floor_iff)
    with True eff show ?thesis by simp
  next
    case False
    with eff Cons.prems(5) show ?thesis by simp
  qed
  with Cons.IH [of vs1] rec fi f Cons.prems
  obtain vs' where "WebcamVideoStream_write nows vs1 = Inr vs'" "fps vs' = fps vs"
    "current_frame vs' \<le> \<lfloor>T * of_int (fps vs)\<rfloor> + 1"
    by auto
  with it show ?case by simp
qed

lemma write_lower:
  assumes "recording st vs" and "frame_index vs = 1 / of_int (fps vs)" and "0 < fps vs"
    and "paced (frame_index vs) prev (map (\<lambda>now. total_seconds (now - st)) nows) T"
    and "prev \<le> frame_index vs * of_int (current_frame vs)"
  shows "\<exists>vs'. WebcamVideoStream_write nows vs = Inr vs' \<and>
           \<lfloor>T * of_int (fps vs)\<rfloor> - 1 \<le> current_frame vs'"
  using assms
proof (induction nows arbitrary: vs prev)
  case Nil
  have "T - 1 / of_int (fps vs) \<le> of_int (current_frame vs) / of_int (fps vs)"
    using Nil.prems(2,4,5) by simp
  then have "(T - 1 / of_int (fps vs)) * of_int (fps vs)
      \<le> of_int (current_frame vs) / of_int (fps vs) * of_int (fps vs)"
    using Nil.prems(3) by (intro mult_right_mono) simp_all
  then have "T * of_int (fps vs) - 1 \<le> of_int (current_frame vs)"
    using Nil.prems(3) by (simp add: left_diff_distrib)
  then have "of_int \<lfloor>T * of_int (fps vs)\<rfloor> - 1 \<le> (of_int (current_frame vs) :: rat)"
    using of_int_floor_le [of "T * of_int (fps vs)"] by linarith
  then have "\<lfloor>T * of_int (fps vs)\<rfloor> - 1 \<le> current_frame vs"
    by (metis of_int_1 of_int_diff of_int_le_iff)
  then show ?case by simp
next
  case (Cons now nows)
  from write_iter_recording [OF Cons.prems(1), of now] obtain vs1 where
    it: "write_iter now vs = Inr (Loop, vs1)" and rec: "recording st vs1"
    and fi: "frame_index vs1 = frame_index vs" and f: "fps vs1 = fps vs"
    and eff: "if total_seconds (now - st) > frame_index vs * of_int (current_frame vs)
            then emitted vs1 = emitted vs @ [frame vs] \<and> current_frame vs1 = current_frame vs + 1
            else emitted vs1 = emitted vs \<and> current_frame vs1 = current_frame vs"
    by blast
  let ?e = "total_seconds (now - st)"
  have gap: "?e - prev \<le> frame_index vs"
    and rest: "paced (frame_index vs) ?e (map (\<lambda>now. total_seconds (now - st)) nows) T"
    using Cons.prems(4) by simp_all
  have pos: "0 < frame_index vs" using Cons.prems(2,3) by simp
  have "?e \<le> frame_index vs1 * of_int (current_frame vs1)"
  proof (cases "?e > frame_index vs * of_int (current_frame vs)")
    case True
    then have "current_frame vs1 = current_frame vs + 1" using eff by simp
    moreover have "?e \<le> frame_index vs * of_int (current_frame vs) + frame_index vs"
      using gap Cons.prems(5) by linarith
    ultimately show ?thesis using fi by (simp add: algebra_simps)
  next
    case False
    with eff fi show ?thesis by simp
  qed
  with Cons.IH [of vs1 ?e] rec fi f rest Cons.prems(2,3)
  obtain vs' where "WebcamVideoStream_write nows vs1 = Inr vs'"
    "\<lfloor>T * of_int (fps vs)\<rfloor> - 1 \<le> current_frame vs'"
    by auto
  with it show ?case by simp
qed


lemma camera_setup_recording:
  assumes "arg_fps a \<noteq> 0"
  shows "\<exists>vs. camera_setup a path cap = Inr vs \<and> recording st (WebcamVideoStream_start st vs) \<and>
           fps (WebcamVideoStream_start st vs) = arg_fps a \<and>
           frame_index (WebcamVideoStream_start st vs) = 1 / of_int (arg_fps a) \<and>
           current_frame (WebcamVideoStream_start st vs) = 0 \<and>
           emitted (WebcamVideoStream_start st vs) = []"
  using assms
  by (simp add: camera_setup_def WebcamVideoStream_init_def WebcamVideoStream_start_def
      recording_def FPS_start_def Let_def emitted_def cv2_VideoWriter_def)

text \<open>
  Claim C1, amended.  An iteration of the write thread of a recording camera emits the
  current frame exactly when the time elapsed since the counter's start exceeds
  \<open>frame_index * current_frame\<close>, and then adds one to \<open>current_frame\<close>.  For a camera
  set up with the rate \<open>f > 0\<close> and started at \<open>st\<close>, whose write thread reads the clock
  only at elapsed times up to \<open>T\<close>, the count is at most \<open>\<lfloor>T * f\<rfloor> + 1\<close>; it is at least
  \<open>\<lfloor>T * f\<rfloor> - 1\<close> when the write thread reads the clock at least once per frame interval
  \<open>1 / f\<close> up to \<open>T\<close>.
\<close>

theorem write_schedule:
  "(recording st vs \<longrightarrow>
      (\<exists>vs1. write_iter now vs = Inr (Loop, vs1) \<and>
         (if total_seconds (now - st) > frame_index vs * of_int (current_frame vs)
          then emitted vs1 = emitted vs @ [frame vs] \<and> current_frame vs1 = current_frame vs + 1
          else emitted vs1 = emitted vs \<and> current_frame vs1 = current_frame vs))) \<and>
   (0 < arg_fps a \<and> 0 \<le> T \<and> (\<forall>t\<in>set nows. total_seconds (t - st) \<le> T) \<longrightarrow>
      (\<exists>vs'. record_camera a path cap st nows = Inr vs' \<and>
         current_frame vs' \<le> \<lfloor>T * of_int (arg_fps a)\<rfloor> + 1 \<and>
         (paced (1 / of_int (arg_fps a)) 0 (map (\<lambda>t. total_seconds (t - st)) nows) T \<longrightarrow>
            \<lfloor>T * of_int (arg_fps a)\<rfloor> - 1 \<le> current_frame vs')))"
proof (intro conjI impI)
  assume "recording st vs"
  from write_iter_recording [OF this, of now]
  show "\<exists>vs1. write_iter now vs = Inr (Loop, vs1) \<and>
         (if total_seconds (now - st) > frame_index vs * of_int (current_frame vs)
          then emitted vs1 = emitted vs @ [frame vs] \<and> current_frame vs1 = current_frame vs + 1
          else emitted vs1 = emitted vs \<and> current_frame vs1 = current_frame vs)"
    by blast
next
  assume h: "0 < arg_fps a \<and> 0 \<le> T \<and> (\<forall>t\<in>set nows. total_seconds (t - st) \<le> T)"
  then have "arg_fps a \<noteq> 0" by simp
  from camera_setup_recording [OF this, of path cap st] obtain vs0 where
    su: "camera_setup a path cap = Inr vs0"
    and rec: "recording st (WebcamVideoStream_start st vs0)"
    and f: "fps (WebcamVideoStream_start st vs0) = arg_fps a"
    and fi: "frame_index (WebcamVideoStream_start st vs0) = 1 / of_int (arg_fps a)"
    and c0: "current_frame (WebcamVideoStream_start st vs0) = 0"
    by blast
  let ?vs = "WebcamVideoStream_start st vs0"
  have "0 \<le> T * of_int (arg_fps a)" using h by simp
  then have "0 \<le> \<lfloor>T * of_int (arg_fps a)\<rfloor>" by simp
  then have c0': "current_frame ?vs \<le> \<lfloor>T * of_int (fps ?vs)\<rfloor> + 1" using c0 f by simp
  from write_upper [OF rec _ _ _ c0', of nows] h f fi
  obtain vs' where w: "WebcamVideoStream_write nows ?vs = Inr vs'"
    and up: "current_frame vs' \<le> \<lfloor>T * of_int (arg_fps a)\<rfloor> + 1"
    by auto
  have low: "\<lfloor>T * of_int (arg_fps a)\<rfloor> - 1 \<le> current_frame vs'"
    if "paced (1 / of_int (arg_fps a)) 0 (map (\<lambda>t. total_seconds (t - st)) nows) T"
  proof -
    from write_lower [OF rec, of 0 nows T] that h f fi c0
    obtain vs'' where "WebcamVideoStream_write nows ?vs = Inr vs''"
      "\<lfloor>T * of_int (arg_fps a)\<rfloor> - 1 \<le> current_frame vs''"
      by auto
    with w show ?thesis by simp
  qed
  from su w up low
  show "\<exists>vs'. record_camera a path cap st nows = Inr vs' \<and>
         current_frame vs' \<le> \<lfloor>T * of_int (arg_fps a)\<rfloor> + 1 \<and>
         (paced (1 / of_int (arg_fps a)) 0 (map (\<lambda>t. total_seconds (t - st)) nows) T \<longrightarrow>
            \<lfloor>T * of_int (arg_fps a)\<rfloor> - 1 \<le> current_frame vs')"
    by (simp add: record_camera_def)
qed


text \<open>
  A write thread that comes round every half second emits 4 frames in 2 seconds at the
  rate 5, not \<open>\<lfloor>2 * 5\<rfloor> = 10\<close> within 1.
\<close>

theorem write_schedule_counterexample:
  "map_sum id current_frame
     (record_camera \<lparr>arg_seconds = 2, arg_fps = 5, arg_codec = ''IYUV''\<rparr> ''output1.avi'' brio 0
        [500000, 1000000, 1500000, 2000000]) = Inr 4 \<and>
   \<not> (\<lfloor>(2::rat) * 5\<rfloor> - 1 \<le> (4::int))"
  by (simp add: record_camera_def camera_setup_def WebcamVideoStream_init_def
      WebcamVideoStream_start_def FPS_start_def FPS_init_def FPS_update_def write_iter_def
      VideoCapture_set_def VideoCapture_read_def cv2_VideoWriter_def VideoWriter_write_def
      brio_def total_seconds_def Let_def)


theorem write_schedule_witness:
  "recording 0 (WebcamVideoStream_start 0
       ((WebcamVideoStream_init brio)\<lparr>out := Some (cv2_VideoWriter ''output1.avi'' ''IYUV'' 2 (4096, 2160))\<rparr>)) \<and>
   (\<exists>vs1. write_iter 400000 (WebcamVideoStream_start 0
       ((WebcamVideoStream_init brio)\<lparr>out := Some (cv2_VideoWriter ''output1.avi'' ''IYUV'' 2 (4096, 2160))\<rparr>))
         = Inr (Loop, vs1) \<and> emitted vs1 = [Some (Image 1)] \<and> current_frame vs1 = 1) \<and>
   list_all (\<lambda>t. total_seconds (t - 0) \<le> 1) [400000, 800000, 1000000] \<and>
   paced (1 / 2) 0 (map (\<lambda>t. total_seconds (t - 0)) [400000, 800000, 1000000]) 1 \<and>
   (\<exists>vs'. record_camera \<lparr>arg_seconds = 1, arg_fps = 2, arg_codec = ''IYUV''\<rparr> ''output1.avi'' brio 0
            [400000, 800000, 1000000] = Inr vs' \<and>
          current_frame vs' \<le> 3 \<and> 1 \<le> current_frame vs')"
proof -
  let ?vs = "WebcamVideoStream_start 0
       ((WebcamVideoStream_init brio)\<lparr>out := Some (cv2_VideoWriter ''output1.avi'' ''IYUV'' 2 (4096, 2160))\<rparr>)"
  let ?a = "\<lparr>arg_seconds = 1, arg_fps = 2, arg_codec = ''IYUV''\<rparr>"
  have r: "recording 0 ?vs"
    by (simp add: recording_def WebcamVideoStream_start_def WebcamVideoStream_init_def
        FPS_start_def Let_def)
  have v: "frame_index ?vs = - 1" "current_frame ?vs = 0" "emitted ?vs = []"
    "frame ?vs = Some (Image 1)"
    by (simp_all add: WebcamVideoStream_start_def WebcamVideoStream_init_def emitted_def
        cv2_VideoWriter_def VideoCapture_read_def VideoCapture_set_def brio_def Let_def)
  have h: "\<forall>t\<in>set [400000, 800000, 1000000]. total_seconds (t - 0) \<le> 1"
    by (simp add: total_seconds_def)
  have p: "paced (1 / 2) 0 (map (\<lambda>t. total_seconds (t - 0)) [400000, 800000, 1000000]) 1"
    by (simp add: total_seconds_def)
  from write_schedule [where st = 0 and vs = ?vs and now = 400000 and a = ?a and T = 1
      and nows = "[400000, 800000, 1000000]" and path = "''output1.avi''" and cap = brio]
    r h p
  show ?thesis by (simp add: v total_seconds_def)
qed

subsection \<open>The capture thread and failed reads\<close>

text \<open>
  Claim C2, amended.  An iteration of the capture thread of a camera that is not stopped
  stores what the device read returned, the flag in \<open>grabbed\<close> and the frame in the
  current-frame slot, whether the read succeeded or not, and the loop goes on with the
  next iteration.  After a failed read the slot holds the frame that came with the failure,
  not the frame captured before.
\<close>

theorem update_failed_read:
  "\<not> stopped vs \<longrightarrow>
     fst (update_iter vs) = Loop \<and>
     grabbed (snd (update_iter vs)) = fst (fst (VideoCapture_read (stream vs))) \<and>
     frame (snd (update_iter vs)) = snd (fst (VideoCapture_read (stream vs))) \<and>
     \<not> stopped (snd (update_iter vs)) \<and>
     WebcamVideoStream_update (Suc n) vs = WebcamVideoStream_update n (snd (update_iter vs))"
  by (simp add: update_iter_def Let_def)

theorem update_failed_read_witness:
  "\<not> stopped (WebcamVideoStream_init flaky) \<and>
   fst (update_iter (WebcamVideoStream_init flaky)) = Loop \<and>
   grabbed (snd (update_iter (WebcamVideoStream_init flaky))) = False \<and>
   frame (snd (update_iter (WebcamVideoStream_init flaky))) = None \<and>
   frame (WebcamVideoStream_update (Suc 1) (WebcamVideoStream_init flaky)) = Some (Image 2)"
proof -
  have s: "\<not> stopped (WebcamVideoStream_init flaky)"
    by (simp add: WebcamVideoStream_init_def Let_def)
  have r: "fst (VideoCapture_read (stream (WebcamVideoStream_init flaky))) = (False, None)"
    by (simp add: WebcamVideoStream_init_def VideoCapture_read_def VideoCapture_set_def
        flaky_def Let_def)
  have u: "frame (WebcamVideoStream_update 1 (snd (update_iter (WebcamVideoStream_init flaky))))
      = Some (Image 2)"
    by (simp add: update_iter_def WebcamVideoStream_init_def VideoCapture_read_def
        VideoCapture_set_def flaky_def Let_def)
  from update_failed_read [of "WebcamVideoStream_init flaky" 1] s r u
  show ?thesis by simp
qed

text \<open>
  The camera holds frame 1 when its next read fails and returns \<open>None\<close>: after the
  iteration the slot holds \<open>None\<close>.
\<close>

theorem update_failed_read_counterexample:
  "map_sum id (\<lambda>vs. (frame vs, fst (VideoCapture_read (stream vs)), frame (snd (update_iter vs))))
     (map_sum id (WebcamVideoStream_start 0)
        (camera_setup \<lparr>arg_seconds = 2, arg_fps = 5, arg_codec = ''IYUV''\<rparr> ''output1.avi'' flaky))
   = Inr (Some (Image 1), (False, None), None)"
  by (simp add: camera_setup_def WebcamVideoStream_init_def WebcamVideoStream_start_def
      FPS_start_def FPS_init_def VideoCapture_set_def VideoCapture_read_def cv2_VideoWriter_def
      Let_def update_iter_def flaky_def)

subsection \<open>The first frame\<close>

lemma write_iter_slot:
  assumes "recording st vs"
  shows "\<exists>vs1. write_iter now vs = Inr (Loop, vs1) \<and> recording st vs1 \<and>
           frame vs1 = frame vs \<and> grabbed vs1 = grabbed vs \<and>
           (emitted vs1 = emitted vs \<or> emitted vs1 = emitted vs @ [frame vs])"
  using assms
  by (auto simp: recording_def write_iter_def emitted_def VideoWriter_write_def FPS_update_def Let_def)

lemma write_emits_slot:
  assumes "recording st vs" and "\<forall>f\<in>set (emitted vs). f = frame vs"
  shows "\<exists>vs'. WebcamVideoStream_write nows vs = Inr vs' \<and> frame vs' = frame vs \<and>
           grabbed vs' = grabbed vs \<and>
           (\<forall>f\<in>set (emitted vs'). f = frame vs) \<and> length (emitted vs) \<le> length (emitted vs')"
  using assms
proof (induction nows arbitrary: vs)
  case Nil
  then show ?case by simp
next
  case (Cons now nows)
  from write_iter_slot [OF Cons.prems(1), of now] obtain vs1 where
    it: "write_iter now vs = Inr (Loop, vs1)" and rec: "recording st vs1"
    and fr: "frame vs1 = frame vs" and gr: "grabbed vs1 = grabbed vs"
    and em: "emitted vs1 = emitted vs \<or> emitted vs1 = emitted vs @ [frame vs]"
    by blast
  from em Cons.prems(2) fr have inv: "\<forall>f\<in>set (emitted vs1). f = frame vs1" by auto
  from em have len: "length (emitted vs) \<le> length (emitted vs1)" by auto
  from Cons.IH [OF rec inv] obtain vs' where
    "WebcamVideoStream_write nows vs1 = Inr vs'" "frame vs' = frame vs1"
    "grabbed vs' = grabbed vs1"
    "\<forall>f\<in>set (emitted vs'). f = frame vs1" "length (emitted vs1) \<le> length (emitted vs')"
    by blast
  with it fr gr len show ?case by simp
qed

lemma camera_setup_slot:
  assumes "arg_fps a \<noteq> 0"
  shows "\<exists>vs. camera_setup a path cap = Inr vs \<and>
           frame (WebcamVideoStream_start st vs) = snd (fst (VideoCapture_read cap)) \<and>
           grabbed (WebcamVideoStream_start st vs) = fst (fst (VideoCapture_read cap))"
  using assms
  by (simp add: camera_setup_def WebcamVideoStream_init_def WebcamVideoStream_start_def
      VideoCapture_read_def VideoCapture_set_def Let_def split: list.splits)

text \<open>
  Claim C3, amended.  The constructor reads the device once, before any thread exists, so
  the current-frame slot holds the result of a device read when the write thread starts.
  The write thread emits the slot without testing it or \<open>grabbed\<close>: with the capture
  thread not yet run, every frame it emits is the frame that the constructor's read
  returned, the image when that read succeeded and the empty frame when it failed, and it
  emits as soon as it reads a clock value after the start.
\<close>

theorem write_first_frame:
  "arg_fps a \<noteq> 0 \<longrightarrow>
     (\<exists>vs'. record_camera a path cap st nows = Inr vs' \<and>
        grabbed vs' = fst (fst (VideoCapture_read cap)) \<and>
        (\<forall>f\<in>set (emitted vs'). f = snd (fst (VideoCapture_read cap))) \<and>
        (\<forall>now rest. nows = now # rest \<and> st < now \<longrightarrow> emitted vs' \<noteq> []))"
proof
  assume a: "arg_fps a \<noteq> 0"
  from camera_setup_recording [OF a, of path cap st] camera_setup_slot [OF a, of path cap st]
  obtain vs0 where su: "camera_setup a path cap = Inr vs0"
    and rec: "recording st (WebcamVideoStream_start st vs0)"
    and c0: "current_frame (WebcamVideoStream_start st vs0) = 0"
    and e0: "emitted (WebcamVideoStream_start st vs0) = []"
    and fr: "frame (WebcamVideoStream_start st vs0) = snd (fst (VideoCapture_read cap))"
    and gr: "grabbed (WebcamVideoStream_start st vs0) = fst (fst (VideoCapture_read cap))"
    by auto
  let ?vs = "WebcamVideoStream_start st vs0"
  from write_emits_slot [OF rec, of nows] e0 obtain vs' where
    w: "WebcamVideoStream_write nows ?vs = Inr vs'"
    and g': "grabbed vs' = grabbed ?vs"
    and all: "\<forall>f\<in>set (emitted vs'). f = frame ?vs"
    by auto
  have ne: "emitted vs' \<noteq> []" if n: "nows = now # rest" and lt: "st < now" for now rest
  proof -
    from write_iter_recording [OF rec, of now] obtain vs1 where
      it: "write_iter now ?vs = Inr (Loop, vs1)" and rec1: "recording st vs1"
      and eff: "if total_seconds (now - st) > frame_index ?vs * of_int (current_frame ?vs)
            then emitted vs1 = emitted ?vs @ [frame ?vs] \<and> current_frame vs1 = current_frame ?vs + 1
            else emitted vs1 = emitted ?vs \<and> current_frame vs1 = current_frame ?vs"
      by blast
    have "0 < total_seconds (now - st)" using lt by (simp add: total_seconds_def)
    with eff c0 have e1: "emitted vs1 = emitted ?vs @ [frame ?vs]" by simp
    from write_iter_slot [OF rec, of now] it have fr1: "frame vs1 = frame ?vs" by auto
    with e1 e0 have "\<forall>f\<in>set (emitted vs1). f = frame vs1" by simp
    from write_emits_slot [OF rec1 this, of rest] obtain vs'' where
      "WebcamVideoStream_write rest vs1 = Inr vs''" "length (emitted vs1) \<le> length (emitted vs'')"
      by blast
    with it n w e1 show ?thesis by auto
  qed
  from su w g' gr all fr ne
  show "\<exists>vs'. record_camera a path cap st nows = Inr vs' \<and>
        grabbed vs' = fst (fst (VideoCapture_read cap)) \<and>
        (\<forall>f\<in>set (emitted vs'). f = snd (fst (VideoCapture_read cap))) \<and>
        (\<forall>now rest. nows = now # rest \<and> st < now \<longrightarrow> emitted vs' \<noteq> [])"
    by (auto simp: record_camera_def)
qed

theorem write_first_frame_witness:
  "arg_fps \<lparr>arg_seconds = 2, arg_fps = 5, arg_codec = ''IYUV''\<rparr> \<noteq> 0 \<and>
   (\<exists>vs'. record_camera \<lparr>arg_seconds = 2, arg_fps = 5, arg_codec = ''IYUV''\<rparr> ''output1.avi''
             brio 0 [1, 2] = Inr vs' \<and>
      grabbed vs' \<and> (\<forall>f\<in>set (emitted vs'). f = Some (Image 1)) \<and> emitted vs' \<noteq> [])"
  using write_first_frame [of "\<lparr>arg_seconds = 2, arg_fps = 5, arg_codec = ''IYUV''\<rparr>"
      "''output1.avi''" brio 0 "[1, 2]"]
  by (simp add: VideoCapture_read_def brio_def)

text \<open>
  The device delivers no frame, the constructor's read fails, and the first iteration of
  the write thread hands \<open>None\<close> to the sink.
\<close>

theorem write_first_frame_counterexample:
  "map_sum id (\<lambda>vs. (grabbed vs, emitted vs))
     (record_camera \<lparr>arg_seconds = 2, arg_fps = 5, arg_codec = ''IYUV''\<rparr> ''output1.avi''
        unplugged 0 [1]) = Inr (False, [None])"
  by (simp add: record_camera_def camera_setup_def WebcamVideoStream_init_def WebcamVideoStream_start_def
      FPS_start_def FPS_init_def VideoCapture_set_def VideoCapture_read_def cv2_VideoWriter_def
      Let_def
      write_iter_def FPS_update_def VideoWriter_write_def total_seconds_def emitted_def unplugged_def)


subsection \<open>The count of emitted frames\<close>

lemma step_count:
  assumes "step ev vs = Inr vs1"
  shows "(current_frame vs1 = current_frame vs \<and> emitted vs1 = emitted vs) \<or>
         ((\<exists>now. ev = EvWrite now) \<and> current_frame vs1 = current_frame vs + 1 \<and>
          emitted vs1 = emitted vs @ [frame vs])"
proof (cases ev)
  case EvUpdate
  with assms show ?thesis
    by (auto simp: update_iter_def emitted_def Let_def split: if_splits)
next
  case (EvWrite now)
  with assms show ?thesis
    by (auto simp: write_iter_def emitted_def VideoWriter_write_def Let_def
        split: if_splits option.splits)
next
  case EvRead
  with assms show ?thesis by auto
next
  case (EvStop now)
  with assms show ?thesis
    by (auto simp: WebcamVideoStream_stop_def emitted_def VideoWriter_release_def Let_def
        split: option.splits)
qed

lemma run_count:
  "run evs vs = Inr vs2 \<Longrightarrow>
     current_frame vs \<le> current_frame vs2 \<and>
     current_frame vs2 - current_frame vs = int (length (emitted vs2)) - int (length (emitted vs))"
proof (induction evs arbitrary: vs)
  case Nil
  then show ?case by simp
next
  case (Cons ev evs)
  then obtain vs1 where s: "step ev vs = Inr vs1" and r: "run evs vs1 = Inr vs2"
    by (auto split: sum.splits)
  from step_count [OF s] Cons.IH [OF r] show ?case by auto
qed

text \<open>
  Claim C7.  \<open>current_frame\<close> is 0 after the constructor and still 0, with nothing emitted,
  when the camera is set up and started.  Every call that reaches the camera afterwards
  either leaves the count and the emitted frames as they are, or is an iteration of the
  write thread that hands one frame to the sink and adds one to the count.  Over any
  sequence of calls the count does not decrease and grows by the number of frames emitted.
\<close>

theorem emitted_count:
  "current_frame (WebcamVideoStream_init cap) = 0 \<and>
   (camera_setup a path cap = Inr vs0 \<longrightarrow>
      current_frame (WebcamVideoStream_start st vs0) = 0 \<and>
      emitted (WebcamVideoStream_start st vs0) = []) \<and>
   (step ev vs = Inr vs1 \<longrightarrow>
      (current_frame vs1 = current_frame vs \<and> emitted vs1 = emitted vs) \<or>
      ((\<exists>now. ev = EvWrite now) \<and> current_frame vs1 = current_frame vs + 1 \<and>
       emitted vs1 = emitted vs @ [frame vs])) \<and>
   (run evs vs = Inr vs2 \<longrightarrow>
      current_frame vs \<le> current_frame vs2 \<and>
      current_frame vs2 - current_frame vs =
        int (length (emitted vs2)) - int (length (emitted vs)))"
proof (intro conjI impI)
  show "current_frame (WebcamVideoStream_init cap) = 0"
    by (simp add: WebcamVideoStream_init_def Let_def)
next
  assume "camera_setup a path cap = Inr vs0"
  then show "current_frame (WebcamVideoStream_start st vs0) = 0"
    and "emitted (WebcamVideoStream_start st vs0) = []"
    by (auto simp: camera_setup_def WebcamVideoStream_init_def WebcamVideoStream_start_def
        emitted_def cv2_VideoWriter_def Let_def split: if_splits)
next
  assume "step ev vs = Inr vs1"
  then show "(current_frame vs1 = current_frame vs \<and> emitted vs1 = emitted vs) \<or>
      ((\<exists>now. ev = EvWrite now) \<and> current_frame vs1 = current_frame vs + 1 \<and>
       emitted vs1 = emitted vs @ [frame vs])"
    by (rule step_count)
next
  assume "run evs vs = Inr vs2"
  then show "current_frame vs \<le> current_frame vs2"
    and "current_frame vs2 - current_frame vs =
        int (length (emitted vs2)) - int (length (emitted vs))"
    using run_count by blast+
qed

theorem emitted_count_witness:
  "camera_setup \<lparr>arg_seconds = 2, arg_fps = 5, arg_codec = ''IYUV''\<rparr> ''output1.avi'' brio
     = Inr (projr (camera_setup \<lparr>arg_seconds = 2, arg_fps = 5, arg_codec = ''IYUV''\<rparr>
                 ''output1.avi'' brio)) \<and>
   (\<exists>vs1. step (EvWrite 1) (WebcamVideoStream_start 0
         (projr (camera_setup \<lparr>arg_seconds = 2, arg_fps = 5, arg_codec = ''IYUV''\<rparr>
                 ''output1.avi'' brio))) = Inr vs1 \<and> current_frame vs1 = 1) \<and>
   (\<exists>vs2. run [EvWrite 1, EvUpdate, EvRead, EvWrite 200001, EvStop 300000]
         (WebcamVideoStream_start 0
         (projr (camera_setup \<lparr>arg_seconds = 2, arg_fps = 5, arg_codec = ''IYUV''\<rparr>
                 ''output1.avi'' brio))) = Inr vs2 \<and>
      current_frame vs2 = 2 \<and> emitted vs2 = [Some (Image 1), Some (Image 2)])"
proof -
  let ?a = "\<lparr>arg_seconds = 2, arg_fps = 5, arg_codec = ''IYUV''\<rparr>"
  let ?cfg = "projr (camera_setup ?a ''output1.avi'' brio)"
  let ?started = "WebcamVideoStream_start 0 ?cfg"
  let ?evs = "[EvWrite 1, EvUpdate, EvRead, EvWrite 200001, EvStop 300000]"
  have su: "camera_setup ?a ''output1.avi'' brio = Inr ?cfg"
    by (simp add: camera_setup_def Let_def)
  have "\<exists>vs1. step (EvWrite 1) ?started = Inr vs1 \<and> current_frame vs1 = 1"
    by (simp add: camera_setup_def WebcamVideoStream_init_def WebcamVideoStream_start_def
      FPS_start_def FPS_init_def VideoCapture_set_def VideoCapture_read_def cv2_VideoWriter_def
      Let_def
      write_iter_def FPS_update_def VideoWriter_write_def total_seconds_def emitted_def update_iter_def
      WebcamVideoStream_stop_def FPS_stop_def time_sleep_def VideoCapture_release_def
      VideoWriter_release_def brio_def)
  then obtain vs1 where s1: "step (EvWrite 1) ?started = Inr vs1"
    and c1: "current_frame vs1 = 1" by blast
  have "\<exists>vs2. run ?evs ?started = Inr vs2 \<and> emitted vs2 = [Some (Image 1), Some (Image 2)]"
    by (simp add: camera_setup_def WebcamVideoStream_init_def WebcamVideoStream_start_def
      FPS_start_def FPS_init_def VideoCapture_set_def VideoCapture_read_def cv2_VideoWriter_def
      Let_def
      write_iter_def FPS_update_def VideoWriter_write_def total_seconds_def emitted_def update_iter_def
      WebcamVideoStream_stop_def FPS_stop_def time_sleep_def VideoCapture_release_def
      VideoWriter_release_def brio_def)
  then obtain vs2 where r2: "run ?evs ?started = Inr vs2"
    and e2: "emitted vs2 = [Some (Image 1), Some (Image 2)]" by blast
  from emitted_count [where cap = brio and a = ?a and path = "''output1.avi''" and ?vs0.0 = ?cfg
      and st = 0 and ev = "EvWrite 1" and vs = ?started and ?vs1.0 = vs1 and evs = ?evs and ?vs2.0 = vs2]
    su s1 c1 r2 e2
  show ?thesis by auto
qed


subsection \<open>Devices that do not open\<close>

lemma camera_setup_any:
  assumes "arg_fps a \<noteq> 0"
  shows "\<exists>vs. camera_setup a path cap = Inr vs \<and>
           isOpened (stream vs) = isOpened cap \<and>
           cap_released (stream vs) = cap_released cap \<and>
           out vs = Some (cv2_VideoWriter path (arg_codec a) (arg_fps a) (4096, 2160)) \<and>
           recording t (WebcamVideoStream_start t vs) \<and>
           stream (WebcamVideoStream_start t vs) = stream vs \<and>
           out (WebcamVideoStream_start t vs) = out vs"
  using assms
  by (simp add: camera_setup_def WebcamVideoStream_init_def WebcamVideoStream_start_def
      recording_def FPS_start_def VideoCapture_read_def VideoCapture_set_def Let_def
      split: list.splits)

text \<open>
  Claim C4, amended.  The set-up does not test whether a device opened.  For a codec of
  four characters and a rate other than 0 it sets up all four cameras whatever their
  devices' \<open>isOpened\<close>, releases no device, gives every camera a sink that is not released,
  and after the start all four cameras are recording.
\<close>

theorem setup_ignores_open:
  "length (arg_codec a) = 4 \<and> arg_fps a \<noteq> 0 \<longrightarrow>
     (\<exists>vss. main_setup a (p1, c1) (p2, c2) (p3, c3) (p4, c4) = Inr vss \<and>
        map (isOpened \<circ> stream) vss = map isOpened [c1, c2, c3, c4] \<and>
        map (cap_released \<circ> stream) (main_start [t1, t2, t3, t4] vss)
          = map cap_released [c1, c2, c3, c4] \<and>
        map out (main_start [t1, t2, t3, t4] vss)
          = map (\<lambda>p. Some (cv2_VideoWriter p (arg_codec a) (arg_fps a) (4096, 2160)))
              [p1, p2, p3, p4] \<and>
        list_all2 recording [t1, t2, t3, t4] (main_start [t1, t2, t3, t4] vss))"
proof
  assume h: "length (arg_codec a) = 4 \<and> arg_fps a \<noteq> 0"
  then have f: "arg_fps a \<noteq> 0" by simp
  from camera_setup_any [OF f, of p1 c1 t1] obtain vs1 where
    1: "camera_setup a p1 c1 = Inr vs1" "isOpened (stream vs1) = isOpened c1"
      "cap_released (stream vs1) = cap_released c1"
      "out vs1 = Some (cv2_VideoWriter p1 (arg_codec a) (arg_fps a) (4096, 2160))"
      "recording t1 (WebcamVideoStream_start t1 vs1)"
      "stream (WebcamVideoStream_start t1 vs1) = stream vs1"
      "out (WebcamVideoStream_start t1 vs1) = out vs1"
    by blast
  from camera_setup_any [OF f, of p2 c2 t2] obtain vs2 where
    2: "camera_setup a p2 c2 = Inr vs2" "isOpened (stream vs2) = isOpened c2"
      "cap_released (stream vs2) = cap_released c2"
      "out vs2 = Some (cv2_VideoWriter p2 (arg_codec a) (arg_fps a) (4096, 2160))"
      "recording t2 (WebcamVideoStream_start t2 vs2)"
      "stream (WebcamVideoStream_start t2 vs2) = stream vs2"
      "out (WebcamVideoStream_start t2 vs2) = out vs2"
    by blast
  from camera_setup_any [OF f, of p3 c3 t3] obtain vs3 where
    3: "camera_setup a p3 c3 = Inr vs3" "isOpened (stream vs3) = isOpened c3"
      "cap_released (stream vs3) = cap_released c3"
      "out vs3 = Some (cv2_VideoWriter p3 (arg_codec a) (arg_fps a) (4096, 2160))"
      "recording t3 (WebcamVideoStream_start t3 vs3)"
      "stream (WebcamVideoStream_start t3 vs3) = stream vs3"
      "out (WebcamVideoStream_start t3 vs3) = out vs3"
    by blast
  from camera_setup_any [OF f, of p4 c4 t4] obtain vs4 where
    4: "camera_setup a p4 c4 = Inr vs4" "isOpened (stream vs4) = isOpened c4"
      "cap_released (stream vs4) = cap_released c4"
      "out vs4 = Some (cv2_VideoWriter p4 (arg_codec a) (arg_fps a) (4096, 2160))"
      "recording t4 (WebcamVideoStream_start t4 vs4)"
      "stream (WebcamVideoStream_start t4 vs4) = stream vs4"
      "out (WebcamVideoStream_start t4 vs4) = out vs4"
    by blast
  have "main_setup a (p1, c1) (p2, c2) (p3, c3) (p4, c4) = Inr [vs1, vs2, vs3, vs4]"
    using h 1(1) 2(1) 3(1) 4(1) by (simp add: main_setup_def)
  moreover have "map (isOpened \<circ> stream) [vs1, vs2, vs3, vs4] = map isOpened [c1, c2, c3, c4]"
    using 1(2) 2(2) 3(2) 4(2) by simp
  moreover have "map (cap_released \<circ> stream) (main_start [t1, t2, t3, t4] [vs1, vs2, vs3, vs4])
          = map cap_released [c1, c2, c3, c4]"
    using 1(3,6) 2(3,6) 3(3,6) 4(3,6) by (simp add: main_start_def)
  moreover have "map out (main_start [t1, t2, t3, t4] [vs1, vs2, vs3, vs4])
          = map (\<lambda>p. Some (cv2_VideoWriter p (arg_codec a) (arg_fps a) (4096, 2160)))
              [p1, p2, p3, p4]"
    using 1(4,7) 2(4,7) 3(4,7) 4(4,7) by (simp add: main_start_def)
  moreover have "list_all2 recording [t1, t2, t3, t4]
      (main_start [t1, t2, t3, t4] [vs1, vs2, vs3, vs4])"
    using 1(5) 2(5) 3(5) 4(5) by (simp add: main_start_def)
  ultimately show "\<exists>vss. main_setup a (p1, c1) (p2, c2) (p3, c3) (p4, c4) = Inr vss \<and>
        map (isOpened \<circ> stream) vss = map isOpened [c1, c2, c3, c4] \<and>
        map (cap_released \<circ> stream) (main_start [t1, t2, t3, t4] vss)
          = map cap_released [c1, c2, c3, c4] \<and>
        map out (main_start [t1, t2, t3, t4] vss)
          = map (\<lambda>p. Some (cv2_VideoWriter p (arg_codec a) (arg_fps a) (4096, 2160)))
              [p1, p2, p3, p4] \<and>
        list_all2 recording [t1, t2, t3, t4] (main_start [t1, t2, t3, t4] vss)"
    by blast
qed

theorem setup_ignores_open_witness:
  "length (arg_codec \<lparr>arg_seconds = 2, arg_fps = 5, arg_codec = ''IYUV''\<rparr>) = 4 \<and>
   arg_fps \<lparr>arg_seconds = 2, arg_fps = 5, arg_codec = ''IYUV''\<rparr> \<noteq> 0 \<and>
   (\<exists>vss. main_setup \<lparr>arg_seconds = 2, arg_fps = 5, arg_codec = ''IYUV''\<rparr>
        (''output1.avi'', unplugged) (''output2.avi'', brio) (''output3.avi'', brio)
        (''output4.avi'', brio) = Inr vss \<and>
      map (isOpened \<circ> stream) vss = [False, True, True, True] \<and>
      map (cap_released \<circ> stream) (main_start [0, 0, 0, 0] vss) = [None, None, None, None] \<and>
      list_all2 recording [0, 0, 0, 0] (main_start [0, 0, 0, 0] vss))"
  using setup_ignores_open [of "\<lparr>arg_seconds = 2, arg_fps = 5, arg_codec = ''IYUV''\<rparr>"
      "''output1.avi''" unplugged "''output2.avi''" brio "''output3.avi''" brio
      "''output4.avi''" brio 0 0 0 0]
  by (auto simp: brio_def unplugged_def)

text \<open>
  Camera 1 did not open.  The session is set up and started all the same, nothing is
  released, and the first iteration of each write thread emits: cameras 2 to 4 their
  first frame, camera 1 the empty frame of its failed read.
\<close>

theorem setup_ignores_open_counterexample:
  "map_sum id
     (\<lambda>vss. map (\<lambda>vs. (isOpened (stream vs), cap_released (stream vs),
                        map_sum id (emitted \<circ> snd) (write_iter 1 vs)))
              (main_start [0, 0, 0, 0] vss))
     (main_setup \<lparr>arg_seconds = 2, arg_fps = 5, arg_codec = ''IYUV''\<rparr>
        (''output1.avi'', unplugged) (''output2.avi'', brio) (''output3.avi'', brio)
        (''output4.avi'', brio))
   = Inr [(False, None, Inr [None]), (True, None, Inr [Some (Image 1)]),
          (True, None, Inr [Some (Image 1)]), (True, None, Inr [Some (Image 1)])]"
  by (simp add: main_setup_def main_start_def camera_setup_def WebcamVideoStream_init_def WebcamVideoStream_start_def
      FPS_start_def FPS_init_def VideoCapture_set_def VideoCapture_read_def cv2_VideoWriter_def
      Let_def
      write_iter_def FPS_update_def VideoWriter_write_def total_seconds_def emitted_def brio_def unplugged_def)


subsection \<open>The warning\<close>

lemma round_py_nearest: "\<bar>of_int (round_py r) - r\<bar> \<le> 1 / 2"
proof -
  have "of_int \<lfloor>r\<rfloor> \<le> r" "r < of_int \<lfloor>r\<rfloor> + 1" by linarith+
  then show ?thesis
    by (auto simp: round_py_def Let_def)
qed

text \<open>
  Claim C8.  For the achieved rate \<open>r\<close> that the counter computes, the report of camera
  \<open>i\<close> contains the warning if and only if \<open>r\<close> rounded to the nearest integer is less than
  the target rate \<open>fps\<close>; the report only produces messages.  When the counter has no end
  instant yet, the rate computation fails and so does the report.
\<close>

theorem report_warning:
  "(FPS_fps (FPS_counter vs) = Inr r \<longrightarrow>
      (\<exists>ms. report i vs = Inr ms \<and>
         (Warning i \<in> set ms \<longleftrightarrow> round_py r < fps vs) \<and>
         \<bar>of_int (round_py r) - r\<bar> \<le> 1 / 2)) \<and>
   (FPS_fps (FPS_counter vs) = Inl err \<longrightarrow> report i vs = Inl err)"
  using round_py_nearest [of r] by (simp add: report_def)

theorem report_warning_witness:
  "FPS_fps (FPS_counter ((WebcamVideoStream_init brio)
      \<lparr>fps := 5, FPS_counter := \<lparr>u_start = Some 0, u_end = Some 2000000, u_numFrames = 9\<rparr>\<rparr>))
     = Inr (9 / 2) \<and>
   round_py (9 / 2) = 4 \<and>
   (\<exists>ms. report 1 ((WebcamVideoStream_init brio)
      \<lparr>fps := 5, FPS_counter := \<lparr>u_start = Some 0, u_end = Some 2000000, u_numFrames = 9\<rparr>\<rparr>)
        = Inr ms \<and> Warning 1 \<in> set ms) \<and>
   FPS_fps (FPS_counter ((WebcamVideoStream_init brio)
      \<lparr>fps := 5, FPS_counter := \<lparr>u_start = Some 0, u_end = None, u_numFrames = 9\<rparr>\<rparr>))
     = Inl TypeError \<and>
   report 1 ((WebcamVideoStream_init brio)
      \<lparr>fps := 5, FPS_counter := \<lparr>u_start = Some 0, u_end = None, u_numFrames = 9\<rparr>\<rparr>)
     = Inl TypeError"
proof -
  let ?done = "(WebcamVideoStream_init brio)
      \<lparr>fps := 5, FPS_counter := \<lparr>u_start = Some 0, u_end = Some 2000000, u_numFrames = 9\<rparr>\<rparr>"
  let ?running = "(WebcamVideoStream_init brio)
      \<lparr>fps := 5, FPS_counter := \<lparr>u_start = Some 0, u_end = None, u_numFrames = 9\<rparr>\<rparr>"
  have r: "FPS_fps (FPS_counter ?done) = Inr (9 / 2)"
    by (simp add: FPS_fps_def FPS_elapsed_def total_seconds_def)
  have e: "FPS_fps (FPS_counter ?running) = Inl TypeError"
    by (simp add: FPS_fps_def FPS_elapsed_def)
  have f: "\<lfloor>9 / 2 :: rat\<rfloor> = 4" by (simp add: floor_eq_iff)
  have q: "round_py (9 / 2) = 4"
    by (simp add: round_py_def f Let_def)
  have t: "fps ?done = 5" by simp
  from report_warning [of ?done "9 / 2" 1 TypeError] report_warning [of ?running 0 1 TypeError]
    r e q t
  show ?thesis by (simp del: FPS.simps WebcamVideoStream.simps)
qed

subsection \<open>Stopping a camera\<close>

text \<open>
  Claim C9.  \<open>stop()\<close> entered at the instant \<open>now\<close> on a camera with a sink sets \<open>stopped\<close>
  and records \<open>now\<close> as the counter's end instant; the device and the sink are released
  5 seconds later, when \<open>stop()\<close> returns.  The elapsed duration of the counter runs from
  its start to \<open>now\<close>; the duration up to the return of \<open>stop()\<close> is 5 seconds longer.
\<close>

theorem stop_order:
  "out vs = Some w \<and> u_start (FPS_counter vs) = Some st \<longrightarrow>
     (\<exists>vs'. WebcamVideoStream_stop now vs = Inr (vs', now + 5000000) \<and>
        stopped vs' \<and>
        u_end (FPS_counter vs') = Some now \<and>
        cap_released (stream vs') = Some (now + 5000000) \<and>
        out vs' = Some (w\<lparr>wr_released := Some (now + 5000000)\<rparr>) \<and>
        FPS_elapsed (FPS_counter vs') = Inr (total_seconds (now - st)) \<and>
        total_seconds (now + 5000000 - st) = total_seconds (now - st) + 5)"
  by (simp add: WebcamVideoStream_stop_def FPS_stop_def time_sleep_def FPS_elapsed_def
      VideoCapture_release_def VideoWriter_release_def total_seconds_def Let_def
      add_divide_distrib diff_divide_distrib)

theorem stop_order_witness:
  "(\<exists>w. out (WebcamVideoStream_start 1000000
        (projr (camera_setup \<lparr>arg_seconds = 2, arg_fps = 5, arg_codec = ''IYUV''\<rparr>
                 ''output1.avi'' brio))) = Some w) \<and>
   (\<exists>vs'. WebcamVideoStream_stop 3000000 (WebcamVideoStream_start 1000000
        (projr (camera_setup \<lparr>arg_seconds = 2, arg_fps = 5, arg_codec = ''IYUV''\<rparr>
                 ''output1.avi'' brio))) = Inr (vs', 8000000) \<and>
      u_end (FPS_counter vs') = Some 3000000 \<and>
      cap_released (stream vs') = Some 8000000 \<and>
      FPS_elapsed (FPS_counter vs') = Inr 2)"
proof -
  let ?started = "WebcamVideoStream_start 1000000
        (projr (camera_setup \<lparr>arg_seconds = 2, arg_fps = 5, arg_codec = ''IYUV''\<rparr>
                 ''output1.avi'' brio))"
  let ?w = "cv2_VideoWriter ''output1.avi'' ''IYUV'' 5 (4096, 2160)"
  have o: "out ?started = Some ?w"
    by (simp add: camera_setup_def WebcamVideoStream_init_def WebcamVideoStream_start_def Let_def)
  have s: "u_start (FPS_counter ?started) = Some 1000000"
    by (simp add: WebcamVideoStream_start_def FPS_start_def)
  from stop_order [of ?started ?w 1000000 3000000] o s
  show ?thesis by (auto simp: total_seconds_def)
qed

end
